theory Spec2Isabelle
  imports Complex_Main
begin

section \<open>Text\<close>

text \<open>
  A Python \<^verbatim>\<open>str\<close> is a sequence of Unicode code points and \<^verbatim>\<open>len\<close> counts
  code points (the documents are Persian), so a text is a list of code points, not of
  bytes. ASCII literals of the source are written \<open>ascii ''...''\<close>.
\<close>

type_synonym str = "nat list"

definition ascii :: "string \<Rightarrow> str" where
  "ascii s = map of_char s"

text \<open>\<^verbatim>\<open>sep.join(parts)\<close>.\<close>

fun join :: "str \<Rightarrow> str list \<Rightarrow> str" where
  "join sep [] = []"
| "join sep [x] = x"
| "join sep (x # y # ys) = x @ sep @ join sep (y # ys)"

text \<open>
  \<^verbatim>\<open>str.isspace\<close> on one character, and \<^verbatim>\<open>str.strip()\<close>, which removes leading and
  trailing whitespace.
\<close>

definition isspace :: "nat \<Rightarrow> bool" where
  "isspace c = (c \<in> {9, 10, 11, 12, 13, 28, 29, 30, 31, 32, 133, 160, 5760,
      8232, 8233, 8239, 8287, 12288} \<or> (8192 \<le> c \<and> c \<le> 8202))"

definition strip :: "str \<Rightarrow> str" where
  "strip s = rev (dropWhile isspace (rev (dropWhile isspace s)))"

section \<open>External collaborators\<close>

text \<open>
  The libraries the application calls are not part of the repository; the functions of
  \<^verbatim>\<open>app.py\<close> are modelled over them as parameters:
  \<^item> \<open>split_text chunk_size chunk_overlap text\<close> is
    \<^verbatim>\<open>RecursiveCharacterTextSplitter(chunk_size, chunk_overlap).split_text(text)\<close>;
  \<^item> \<open>normalize\<close> is \<^verbatim>\<open>hazm.Normalizer().normalize\<close> and \<open>word_tokenize\<close> is
    \<^verbatim>\<open>hazm.word_tokenize\<close>;
  \<^item> \<open>bm25_fit\<close>, \<open>bm25_load\<close> and \<open>bm25_dump\<close> are \<^verbatim>\<open>BM25Encoder().fit\<close>,
    \<^verbatim>\<open>BM25Encoder().load\<close> and \<^verbatim>\<open>dump\<close>, on encoders \<open>'e\<close> and file contents
    \<open>'b\<close>; \<open>bm25_load\<close> returns \<open>None\<close> where the library raises (a file that
    does not hold an encoder state), the one library failure the source handles itself
    (the \<^verbatim>\<open>try\<close> of \<^verbatim>\<open>initialize_chatbot\<close>). Failures of the network services
    during ingestion are outside the model.
\<close>

record text_libs =
  split_text :: "nat \<Rightarrow> nat \<Rightarrow> str \<Rightarrow> str list"
  normalize :: "str \<Rightarrow> str"
  word_tokenize :: "str \<Rightarrow> str list"

record ('e, 'b) bm25_libs =
  bm25_fit :: "str list \<Rightarrow> 'e"
  bm25_load :: "'b \<Rightarrow> 'e option"
  bm25_dump :: "'e \<Rightarrow> 'b"

section \<open>Documents and chunks\<close>

text \<open>
  The upload page builds \<^verbatim>\<open>{"content": text, "metadata": {"file_name", "category", "year"}}\<close>;
  a chunk is the same dictionary with an \<^verbatim>\<open>"id"\<close>.
\<close>

record metadata =
  file_name :: str
  category :: str
  year :: str

record doc =
  content :: str
  metadata :: metadata

record chunk = doc +
  chunk_id :: int

definition CHUNK_SIZE :: nat where
  "CHUNK_SIZE = 1200"

definition CHUNK_OVERLAP :: nat where
  "CHUNK_OVERLAP = 500"

definition preprocess_text :: "text_libs \<Rightarrow> str \<Rightarrow> str" where
  "preprocess_text L text =
     (let text' = normalize L text;
          tokens = word_tokenize L text'
      in join (ascii '' '') tokens)"

text \<open>
  \<^verbatim>\<open>is_valid_doc\<close>; its first conjunct, \<^verbatim>\<open>isinstance(doc["content"], str)\<close>, holds
  by typing. No function of \<^verbatim>\<open>app.py\<close> calls it.
\<close>

definition is_valid_doc :: "'z doc_scheme \<Rightarrow> bool" where
  "is_valid_doc d = (length (strip (content d)) > 50)"

text \<open>
  \<^verbatim>\<open>split_documents\<close>: the inner loop over the pieces of one document and the outer
  loop over the documents thread the running \<^verbatim>\<open>count\<close>, which starts at 1.
\<close>

fun split_chunks ::
  "text_libs \<Rightarrow> metadata \<Rightarrow> str list \<Rightarrow> int \<Rightarrow> chunk list \<times> int" where
  "split_chunks L m [] count = ([], count)"
| "split_chunks L m (piece # pieces) count =
     (let normalized_chunk = preprocess_text L piece;
          c = \<lparr>content = normalized_chunk, metadata = m, chunk_id = count\<rparr>;
          (cs, count') = split_chunks L m pieces (count + 1)
      in (c # cs, count'))"

fun split_docs_from :: "text_libs \<Rightarrow> doc list \<Rightarrow> int \<Rightarrow> chunk list" where
  "split_docs_from L [] count = []"
| "split_docs_from L (d # ds) count =
     (let (cs, count') =
            split_chunks L (metadata d) (split_text L CHUNK_SIZE CHUNK_OVERLAP (content d)) count
      in cs @ split_docs_from L ds count')"

definition split_documents :: "text_libs \<Rightarrow> doc list \<Rightarrow> chunk list" where
  "split_documents L docs = split_docs_from L docs 1"

text \<open>
  A splitter that always cuts hard: windows of \<open>chunk_size\<close> characters, each
  starting \<open>chunk_size - chunk_overlap\<close> characters after the previous one, the
  last window ending where the text ends. It is one value of the parameter
  \<open>split_text\<close>, used in the closed examples: on a text without whitespace or line
  breaks the library's splitter has no separator to prefer and cuts like this. It is
  only applied with \<open>chunk_overlap < chunk_size\<close> (the constants 1200 and 500); the
  library's constructor raises for a larger overlap.
\<close>

function window_split :: "nat \<Rightarrow> nat \<Rightarrow> str \<Rightarrow> str list" where
  "window_split chunk_size chunk_overlap text =
     (if text = [] then []
      else if length text \<le> chunk_size \<or> chunk_size \<le> chunk_overlap then [text]
      else take chunk_size text #
           window_split chunk_size chunk_overlap (drop (chunk_size - chunk_overlap) text))"
  by pat_completeness auto
termination
  by (relation "measure (\<lambda>(chunk_size, chunk_overlap, text). length text)") auto

declare window_split.simps [simp del]





section \<open>The persisted state and the services\<close>

text \<open>
  What the functions read and write outside the process:
  \<^item> \<open>bm25_file\<close>: the content of \<^verbatim>\<open>full_bm25_values.json\<close>, \<open>None\<close> when the file
    does not exist;
  \<^item> \<open>fit_log\<close>: the corpora \<^verbatim>\<open>BM25Encoder().fit\<close> has been called with, oldest first;
  \<^item> \<open>indexes\<close>: the names of the Pinecone indexes;
  \<^item> \<open>upserts\<close>: the \<^verbatim>\<open>add_texts\<close> calls (index name, sparse encoder, texts,
    metadatas), oldest first;
  \<^item> \<open>folder_file\<close>: the content of \<^verbatim>\<open>folder_structure.json\<close>, a list of
    dictionaries from a folder to its subfolders;
  \<^item> \<open>retrieval_calls\<close> and \<open>llm_calls\<close>: the calls of the retriever (query, filter)
    and of the language model (model name, prompt inputs), oldest first.
\<close>

datatype error = FileNotFoundError | IndexError | LoadError | ServiceError str

record 'e vectorstore =
  vs_alpha :: real
  vs_sparse_encoder :: 'e
  vs_index :: str
  vs_top_k :: int

record document =
  page_content :: str
  doc_metadata :: metadata

record chain_inputs =
  ctx :: "document list"
  main_question :: str
  additional_note :: str

record ('e, 'b) world =
  bm25_file :: "'b option"
  fit_log :: "str list list"
  indexes :: "str list"
  upserts :: "(str \<times> 'e \<times> str list \<times> metadata list) list"
  folder_file :: "(str \<rightharpoonup> str list) list option"
  retrieval_calls :: "(str \<times> (str \<rightharpoonup> str list)) list"
  llm_calls :: "(str \<times> chain_inputs) list"

text \<open>
  The query-time services: \<open>get_relevant_documents vs query filter\<close> is
  \<^verbatim>\<open>PineconeHybridSearchRetriever.get_relevant_documents\<close> (it encodes the query into
  the sparse and the dense vector and queries the index), and \<open>llm model prompt\<close> is
  \<^verbatim>\<open>ChatOpenAI(model, temperature=0.1)\<close> followed by \<^verbatim>\<open>StrOutputParser\<close>, on the
  prompt template filled with the inputs. Either may raise.
\<close>

record 'e services =
  get_relevant_documents ::
    "'e vectorstore \<Rightarrow> str \<Rightarrow> (str \<rightharpoonup> str list) \<Rightarrow> error + document list"
  llm :: "str \<Rightarrow> chain_inputs \<Rightarrow> error + str"

definition INDEX_NAME :: str where
  "INDEX_NAME = ascii ''persian-new''"

section \<open>Ingestion\<close>

text \<open>\<^verbatim>\<open>PineconeHybridSearchRetriever.add_texts\<close>, recorded in the world.\<close>

definition add_texts ::
  "'e vectorstore \<Rightarrow> str list \<Rightarrow> metadata list \<Rightarrow> ('e, 'b) world \<Rightarrow> ('e, 'b) world" where
  "add_texts vs texts metadatas w =
     w\<lparr>upserts := upserts w @ [(vs_index vs, vs_sparse_encoder vs, texts, metadatas)]\<rparr>"

text \<open>
  \<^verbatim>\<open>embed_documents_in_pinecone\<close>. The index is created when its name is not listed
  (the poll until it is ready changes nothing the model tracks); the encoder is loaded
  when the file exists, where a failing load propagates, and fitted on the contents of
  the given chunks and dumped otherwise; the retriever is built with \<^verbatim>\<open>top_k=200\<close> and
  the library's default \<^verbatim>\<open>alpha\<close> of 0.5.
\<close>

definition embed_documents_in_pinecone ::
  "('e, 'b) bm25_libs \<Rightarrow> chunk list \<Rightarrow> str \<Rightarrow> ('e, 'b) world
     \<Rightarrow> (error + 'e vectorstore) \<times> ('e, 'b) world" where
  "embed_documents_in_pinecone B docs index_name w =
     (let w1 = (if index_name \<in> set (indexes w) then w
                else w\<lparr>indexes := indexes w @ [index_name]\<rparr>);
          loaded =
            (case bm25_file w1 of
               Some b \<Rightarrow>
                 (case bm25_load B b of
                    None \<Rightarrow> Inl LoadError
                  | Some bm25_encoder \<Rightarrow> Inr (bm25_encoder, w1))
             | None \<Rightarrow>
                 (let all_texts = map content docs;
                      bm25_encoder = bm25_fit B all_texts
                  in Inr (bm25_encoder,
                          w1\<lparr>fit_log := fit_log w1 @ [all_texts],
                              bm25_file := Some (bm25_dump B bm25_encoder)\<rparr>)))
      in case loaded of
           Inl e \<Rightarrow> (Inl e, w1)
         | Inr (bm25_encoder, w2) \<Rightarrow>
             (let all_chunks = map content docs;
                  all_metadatas = map metadata docs;
                  vs = \<lparr>vs_alpha = 1 / 2, vs_sparse_encoder = bm25_encoder,
                        vs_index = index_name, vs_top_k = 200\<rparr>
              in (Inr vs, add_texts vs all_chunks all_metadatas w2)))"

text \<open>
  The branch of \<^verbatim>\<open>document_upload_page\<close> that the button "process document" runs
  (lines 348 to 386), on the text extracted from the uploaded file: the document is
  split and every chunk is handed to \<^verbatim>\<open>embed_documents_in_pinecone\<close>. It returns the
  number of chunks it reports and the error message, if any.
\<close>

definition document_upload_page ::
  "text_libs \<Rightarrow> ('e, 'b) bm25_libs \<Rightarrow> str \<Rightarrow> str \<Rightarrow> str \<Rightarrow> str \<Rightarrow> ('e, 'b) world
     \<Rightarrow> (nat \<times> error option) \<times> ('e, 'b) world" where
  "document_upload_page L B text uploaded_name selected_folder selected_subfolder w =
     (let d = \<lparr>content = text,
                metadata = \<lparr>file_name = uploaded_name, category = selected_folder,
                             year = selected_subfolder\<rparr>\<rparr>;
          chunks = split_documents L [d]
      in case embed_documents_in_pinecone B chunks INDEX_NAME w of
           (Inr vs, w') \<Rightarrow> ((length chunks, None), w')
         | (Inl e, w') \<Rightarrow> ((length chunks, Some e), w'))"

section \<open>Query\<close>

text \<open>
  \<^verbatim>\<open>initialize_chatbot\<close>: the \<^verbatim>\<open>try\<close> loads the encoder; the bare \<^verbatim>\<open>except\<close> (no
  file, or a load that raises) fits a placeholder corpus and dumps it.
\<close>

definition initialize_chatbot ::
  "('e, 'b) bm25_libs \<Rightarrow> real \<Rightarrow> int \<Rightarrow> ('e, 'b) world \<Rightarrow> 'e vectorstore \<times> ('e, 'b) world" where
  "initialize_chatbot B alpha top_k w =
     (let (bm25_encoder, w') =
            (case (case bm25_file w of None \<Rightarrow> None | Some b \<Rightarrow> bm25_load B b) of
               Some e \<Rightarrow> (e, w)
             | None \<Rightarrow>
                 (let e = bm25_fit B [ascii ''placeholder text'']
                  in (e, w\<lparr>fit_log := fit_log w @ [[ascii ''placeholder text'']],
                            bm25_file := Some (bm25_dump B e)\<rparr>)))
      in (\<lparr>vs_alpha = alpha, vs_sparse_encoder = bm25_encoder,
           vs_index = INDEX_NAME, vs_top_k = top_k\<rparr>, w'))"

definition ALL_sentinel :: str where
  "ALL_sentinel = ascii ''ALL''"

text \<open>
  \<^verbatim>\<open>get_selected_subfolders\<close>: the file is opened first, the empty selection returns
  before \<^verbatim>\<open>data[0]\<close> is read, and the loop extends the list by the subfolders of
  every selected folder that is a key.
\<close>

fun extend_subfolders :: "(str \<rightharpoonup> str list) \<Rightarrow> str list \<Rightarrow> str list \<Rightarrow> str list" where
  "extend_subfolders folder_dict [] subfolder_list = subfolder_list"
| "extend_subfolders folder_dict (folder # folders) subfolder_list =
     (case folder_dict folder of
        Some subs \<Rightarrow> extend_subfolders folder_dict folders (subfolder_list @ subs)
      | None \<Rightarrow> extend_subfolders folder_dict folders subfolder_list)"

definition get_selected_subfolders ::
  "str list \<Rightarrow> ('e, 'b) world \<Rightarrow> error + str list" where
  "get_selected_subfolders selected_folders w =
     (case folder_file w of
        None \<Rightarrow> Inl FileNotFoundError
      | Some data \<Rightarrow>
          if selected_folders = [] then Inr [ALL_sentinel]
          else (case data of
                  [] \<Rightarrow> Inl IndexError
                | folder_dict # rest \<Rightarrow>
                    Inr (extend_subfolders folder_dict selected_folders [ALL_sentinel])))"

text \<open>
  The \<^verbatim>\<open>filter_dict\<close> that \<^verbatim>\<open>filtered_retriever\<close> builds, a dictionary from a metadata
  field to the list of its \<^verbatim>\<open>$in\<close> condition.
\<close>

definition filter_dict :: "str list \<Rightarrow> str list \<Rightarrow> (str \<rightharpoonup> str list)" where
  "filter_dict categories sub_categories =
     (let f0 = Map.empty;
          f1 = (if categories \<noteq> [ALL_sentinel] \<and> categories \<noteq> []
                then (if categories \<noteq> [] then f0(ascii ''category'' \<mapsto> categories) else f0)
                else f0);
          f2 = (if sub_categories \<noteq> [ALL_sentinel] \<and> sub_categories \<noteq> []
                then (if sub_categories \<noteq> [] then f1(ascii ''year'' \<mapsto> sub_categories) else f1)
                else f1)
      in f2)"

text \<open>
  Modelled from the spec: what a filter means to the index (Pinecone's \<^verbatim>\<open>$in\<close>, not
  under src/): a chunk passes when, for every field the filter constrains, its metadata
  value for that field is one of the listed values (section 4.5, exact match on metadata
  fields); a field the filter does not mention is unconstrained.
\<close>

definition metadata_get :: "metadata \<Rightarrow> str \<Rightarrow> str option" where
  "metadata_get m field =
     (if field = ascii ''file_name'' then Some (file_name m)
      else if field = ascii ''category'' then Some (category m)
      else if field = ascii ''year'' then Some (year m)
      else None)"

definition passes_field :: "(str \<rightharpoonup> str list) \<Rightarrow> metadata \<Rightarrow> str \<Rightarrow> bool" where
  "passes_field f m field =
     (case f field of
        None \<Rightarrow> True
      | Some vals \<Rightarrow> (case metadata_get m field of None \<Rightarrow> False | Some v \<Rightarrow> v \<in> set vals))"

text \<open>
  \<^verbatim>\<open>filtered_retriever\<close>, \<^verbatim>\<open>debug_print_context\<close> (it collects the metadata of the
  context into a local list and returns its input) and the chain that
  \<^verbatim>\<open>create_chatbot_retrieval_qa\<close> returns, applied to the inputs of \<^verbatim>\<open>invoke\<close>: the
  retriever is called with the question as given, then the model with the filled
  prompt; the result is the model's text.
\<close>

definition filtered_retriever ::
  "'e services \<Rightarrow> 'e vectorstore \<Rightarrow> str list \<Rightarrow> str list \<Rightarrow> str \<Rightarrow> ('e, 'b) world
     \<Rightarrow> (error + document list) \<times> ('e, 'b) world" where
  "filtered_retriever S vs categories sub_categories query w =
     (let f = filter_dict categories sub_categories
      in (get_relevant_documents S vs query f,
          w\<lparr>retrieval_calls := retrieval_calls w @ [(query, f)]\<rparr>))"

definition debug_print_context :: "chain_inputs \<Rightarrow> chain_inputs" where
  "debug_print_context inputs =
     (let con = ctx inputs;
          context = map doc_metadata con
      in inputs)"

definition create_chatbot_retrieval_qa ::
  "'e services \<Rightarrow> str \<Rightarrow> str \<Rightarrow> 'e vectorstore \<Rightarrow> str list \<Rightarrow> str list \<Rightarrow> str
     \<Rightarrow> (str \<times> str) \<Rightarrow> ('e, 'b) world \<Rightarrow> (error + str) \<times> ('e, 'b) world" where
  "create_chatbot_retrieval_qa S main_query note vs categories sub_categories model_name =
     (\<lambda>(x_main_question, x_additional_note) w.
        case filtered_retriever S vs categories sub_categories x_main_question w of
          (Inl e, w1) \<Rightarrow> (Inl e, w1)
        | (Inr docs, w1) \<Rightarrow>
            (let inputs = debug_print_context
                   \<lparr>ctx = docs, main_question = x_main_question,
                    additional_note = x_additional_note\<rparr>
             in (llm S model_name inputs,
                 w1\<lparr>llm_calls := llm_calls w1 @ [(model_name, inputs)]\<rparr>)))"

text \<open>
  \<^verbatim>\<open>chatbot_page\<close>, on the values of its widgets and the session state. The folder file
  is read first (a missing file or an empty list raises), the retriever is initialised
  when the session has none, the subfolder options are computed, and the button
  validates the question and the selections before it builds and invokes the chain; an
  exception of the chain becomes an error message.
\<close>

record ui =
  ui_categories :: "str list"
  ui_sub_categories :: "str list"
  ui_selected_model :: str
  ui_main_query :: str
  ui_additional_note :: str
  ui_submit :: bool

record 'e session =
  ss_vectorstore :: "'e vectorstore option"
  ss_alpha :: real
  ss_top_k :: int

datatype shown = NotSubmitted | WarnQuestion | WarnSelection | Response str | QueryError error

definition chatbot_page ::
  "('e, 'b) bm25_libs \<Rightarrow> 'e services \<Rightarrow> ui \<Rightarrow> 'e session \<Rightarrow> ('e, 'b) world
     \<Rightarrow> error + (shown \<times> 'e session \<times> ('e, 'b) world)" where
  "chatbot_page B S u s w =
     (case folder_file w of
        None \<Rightarrow> Inl FileNotFoundError
      | Some [] \<Rightarrow> Inl IndexError
      | Some (folder_dict # rest) \<Rightarrow>
          (let (vs, w1) =
                 (case ss_vectorstore s of
                    None \<Rightarrow> initialize_chatbot B (ss_alpha s) (ss_top_k s) w
                  | Some vs \<Rightarrow> (vs, w));
               s1 = s\<lparr>ss_vectorstore := Some vs\<rparr>
           in case get_selected_subfolders (ui_categories u) w1 of
                Inl e \<Rightarrow> Inl e
              | Inr sub_cat \<Rightarrow>
                  if \<not> ui_submit u then Inr (NotSubmitted, s1, w1)
                  else if ui_main_query u = [] then Inr (WarnQuestion, s1, w1)
                  else if ui_categories u = [] \<and> ui_sub_categories u = []
                  then Inr (WarnSelection, s1, w1)
                  else
                    (let chatbot = create_chatbot_retrieval_qa S (ui_main_query u)
                           (ui_additional_note u) vs (ui_categories u)
                           (ui_sub_categories u) (ui_selected_model u)
                     in case chatbot (ui_main_query u,
                               if ui_additional_note u \<noteq> [] then ui_additional_note u else [])
                               w1 of
                          (Inr response, w2) \<Rightarrow> Inr (Response response, s1, w2)
                        | (Inl e, w2) \<Rightarrow> Inr (QueryError e, s1, w2))))"

section \<open>Sequences of requests\<close>

text \<open>
  The two request flows that touch the encoder file, in any order: an ingestion (a
  call of \<^verbatim>\<open>embed_documents_in_pinecone\<close>) and an initialisation of the chatbot (a
  call of \<^verbatim>\<open>initialize_chatbot\<close>). \<open>run\<close> is the world after a sequence of them.
\<close>

datatype request = Ingest "chunk list" str | InitChatbot real int

fun run :: "('e, 'b) bm25_libs \<Rightarrow> request list \<Rightarrow> ('e, 'b) world \<Rightarrow> ('e, 'b) world" where
  "run B [] w = w"
| "run B (Ingest docs index_name # rs) w =
     run B rs (snd (embed_documents_in_pinecone B docs index_name w))"
| "run B (InitChatbot alpha top_k # rs) w =
     run B rs (snd (initialize_chatbot B alpha top_k w))"

section \<open>Concrete collaborators for the closed examples\<close>

text \<open>
  Instances of the collaborators at which the theorems below are evaluated. On the
  inputs of the examples they agree with the libraries:
  \<^item> \<open>demo_text_libs\<close>: a text without whitespace or punctuation (\<open>abc\<close>, \<open>salam\<close>)
    is unchanged by the normaliser and is one token;
  \<^item> \<open>demo_punct_libs\<close>: in the text \<open>a.a.a. ...\<close> every letter and every full stop
    is a token of its own;
  \<^item> \<open>demo_question_libs\<close>: the question mark of \<open>why?\<close> is a token of its own;
  \<^item> a text of at most 1200 characters without whitespace is one piece of the
    splitter.
  \<open>demo_break_libs\<close> splits as the Chunker of the specification does, with the line
  feed (code point 10) as the break character; \<open>demo_break_doc\<close> is a document of
  2600 characters whose one line feed is its character number 1000.
  The encoder instance \<open>demo_bm25\<close> keeps the corpus it was fitted on and is stored as
  it is; \<open>demo_strict_bm25\<close> is the same, but an empty file does not load. The
  services instance retrieves a given list of documents and generates the text \<open>ok\<close>,
  whatever the prompt.
\<close>

definition demo_text_libs :: text_libs where
  "demo_text_libs =
     \<lparr>split_text = window_split, normalize = (\<lambda>t. t), word_tokenize = (\<lambda>t. [t])\<rparr>"

definition demo_punct_libs :: text_libs where
  "demo_punct_libs =
     \<lparr>split_text = window_split, normalize = (\<lambda>t. t), word_tokenize = map (\<lambda>c. [c])\<rparr>"

definition demo_bm25 :: "(str list, str list) bm25_libs" where
  "demo_bm25 = \<lparr>bm25_fit = (\<lambda>corpus. corpus), bm25_load = Some, bm25_dump = (\<lambda>e. e)\<rparr>"


definition demo_strict_bm25 :: "(str list, str list) bm25_libs" where
  "demo_strict_bm25 =
     \<lparr>bm25_fit = (\<lambda>corpus. corpus),
      bm25_load = (\<lambda>b. if b = [] then None else Some b),
      bm25_dump = (\<lambda>e. e)\<rparr>"


definition empty_world :: "(str list, str list) world" where
  "empty_world = \<lparr>bm25_file = None, fit_log = [], indexes = [], upserts = [],
     folder_file = None, retrieval_calls = [], llm_calls = []\<rparr>"

definition demo_metadata :: metadata where
  "demo_metadata =
     \<lparr>file_name = ascii ''a.docx'', category = ascii ''news'', year = ascii ''2024''\<rparr>"

definition demo_chunk :: chunk where
  "demo_chunk = \<lparr>content = ascii ''salam'', metadata = demo_metadata, chunk_id = 1\<rparr>"

definition demo_folders :: "str \<rightharpoonup> str list" where
  "demo_folders =
     [ascii ''news'' \<mapsto> [ascii ''2023'', ascii ''2024''],
      ascii ''reports'' \<mapsto> [ascii ''2024'', ascii ''2025'']]"

definition demo_folder_world :: "(str list, str list) world" where
  "demo_folder_world = empty_world\<lparr>folder_file := Some [demo_folders]\<rparr>"

definition demo_services :: "document list \<Rightarrow> str list services" where
  "demo_services docs =
     \<lparr>get_relevant_documents = (\<lambda>vs query f. Inr docs),
      llm = (\<lambda>model_name inputs. Inr (ascii ''ok''))\<rparr>"

definition demo_session :: "str list session" where
  "demo_session = \<lparr>ss_vectorstore = None, ss_alpha = 3 / 10, ss_top_k = 60\<rparr>"

definition demo_ui :: ui where
  "demo_ui =
     \<lparr>ui_categories = [ascii ''news''], ui_sub_categories = [],
      ui_selected_model = ascii ''gpt-4o'', ui_main_query = ascii ''why?'',
      ui_additional_note = [], ui_submit = True\<rparr>"

definition demo_document :: "str \<Rightarrow> document" where
  "demo_document name =
     \<lparr>page_content = ascii ''salam'',
      doc_metadata = \<lparr>file_name = name, category = ascii ''news'', year = ascii ''2024''\<rparr>\<rparr>"

definition demo_question_libs :: text_libs where
  "demo_question_libs =
     \<lparr>split_text = window_split, normalize = (\<lambda>t. t),
      word_tokenize = (\<lambda>t. if t = ascii ''why?'' then [ascii ''why'', ascii ''?''] else [t])\<rparr>"

section \<open>Notation of the statements\<close>

text \<open>
  The pieces the splitter returns for a list of documents, in order; the retriever
  \<^verbatim>\<open>chatbot_page\<close> uses (the one of the session, or a newly initialised one) with the
  world after its initialisation; and the subfolders a folder dictionary gives a
  folder (none when it is not a key).
\<close>

abbreviation pieces_of :: "text_libs \<Rightarrow> doc list \<Rightarrow> str list" where
  "pieces_of L docs \<equiv>
     concat (map (\<lambda>d. split_text L CHUNK_SIZE CHUNK_OVERLAP (content d)) docs)"

abbreviation session_store ::
  "('e, 'b) bm25_libs \<Rightarrow> 'e session \<Rightarrow> ('e, 'b) world \<Rightarrow> 'e vectorstore \<times> ('e, 'b) world" where
  "session_store B s w \<equiv>
     (case ss_vectorstore s of
        None \<Rightarrow> initialize_chatbot B (ss_alpha s) (ss_top_k s) w
      | Some vs \<Rightarrow> (vs, w))"

abbreviation subfolders_of :: "(str \<rightharpoonup> str list) \<Rightarrow> str \<Rightarrow> str list" where
  "subfolders_of folder_dict folder \<equiv>
     (case folder_dict folder of None \<Rightarrow> [] | Some subs \<Rightarrow> subs)"

section \<open>Chunking\<close>

lemma split_chunks_snd: "snd (split_chunks L m ps n) = n + int (length ps)"
  by (induction ps arbitrary: n) (simp_all add: Let_def split_beta)

lemma split_chunks_content:
  "map content (fst (split_chunks L m ps n)) = map (preprocess_text L) ps"
  by (induction ps arbitrary: n) (simp_all add: Let_def split_beta)

lemma split_chunks_metadata:
  "map metadata (fst (split_chunks L m ps n)) = replicate (length ps) m"
  by (induction ps arbitrary: n) (simp_all add: Let_def split_beta)

lemma split_chunks_ids:
  "map chunk_id (fst (split_chunks L m ps n)) = map (\<lambda>i. n + int i) [0..<length ps]"
proof (induction ps arbitrary: n)
  case Nil
  then show ?case by simp
next
  case (Cons p ps)
  have "map (\<lambda>i. n + int i) [0..<length (p # ps)] =
        n # map (\<lambda>i. (n + 1) + int i) [0..<length ps]"
    by (simp add: map_upt_Suc add.assoc add.commute del: upt_Suc)
  then show ?case using Cons [of "n + 1"]
    by (simp add: Let_def split_beta del: upt_Suc)
qed

lemma split_docs_from_content:
  "map content (split_docs_from L ds n) = map (preprocess_text L) (pieces_of L ds)"
  by (induction ds arbitrary: n)
     (simp_all add: Let_def split_beta split_chunks_content)

lemma upt_append_shift: "[0..<a + b] = [0..<a] @ map (\<lambda>i. a + i) [0..<b]"
  by (induction b) simp_all

lemma split_docs_from_ids:
  "map chunk_id (split_docs_from L ds n) = map (\<lambda>i. n + int i) [0..<length (pieces_of L ds)]"
proof (induction ds arbitrary: n)
  case Nil
  then show ?case by simp
next
  case (Cons d ds)
  let ?ps = "split_text L CHUNK_SIZE CHUNK_OVERLAP (content d)"
  show ?case
    using Cons [of "n + int (length ?ps)"]
    by (simp add: Let_def split_beta split_chunks_ids split_chunks_snd upt_append_shift
          o_def add.assoc del: upt_Suc)
qed

lemma window_split_bound:
  "ov < cs \<Longrightarrow> p \<in> set (window_split cs ov t) \<Longrightarrow> length p \<le> cs"
proof (induction cs ov t rule: window_split.induct)
  case (1 cs ov t)
  show ?case
  proof (cases "t = [] \<or> length t \<le> cs")
    case True
    with "1.prems" show ?thesis
      by (auto simp: window_split.simps [of cs ov t] split: if_splits)
  next
    case False
    with "1.prems" have "p = take cs t \<or> p \<in> set (window_split cs ov (drop (cs - ov) t))"
      by (auto simp: window_split.simps [of cs ov t] split: if_splits)
    then show ?thesis using "1.IH" "1.prems"(1) False by auto
  qed
qed

lemma window_split_short: "t \<noteq> [] \<Longrightarrow> length t \<le> cs \<Longrightarrow> window_split cs ov t = [t]"
  by (simp add: window_split.simps [of cs ov t])







lemma split_documents_content:
  "map content (split_documents L docs) = map (preprocess_text L) (pieces_of L docs)"
  by (simp add: split_documents_def split_docs_from_content)

lemma upload_upserts:
  assumes "document_upload_page L B t n f sf w = ((k, None), w')"
  shows "k = length (split_text L CHUNK_SIZE CHUNK_OVERLAP t) \<and>
      (\<exists>enc. upserts w' = upserts w @
         [(INDEX_NAME, enc, map (preprocess_text L) (split_text L CHUNK_SIZE CHUNK_OVERLAP t),
           replicate k \<lparr>file_name = n, category = f, year = sf\<rparr>)])"
proof -
  let ?d = "\<lparr>content = t, metadata = \<lparr>file_name = n, category = f, year = sf\<rparr>\<rparr>"
  let ?ps = "split_text L CHUNK_SIZE CHUNK_OVERLAP t"
  let ?cs = "split_documents L [?d]"
  have c: "map content ?cs = map (preprocess_text L) ?ps"
    using split_docs_from_content [of L "[?d]" 1] by (simp add: split_documents_def)
  have m: "map metadata ?cs = replicate (length ?ps) (metadata ?d)"
    by (simp add: split_documents_def Let_def split_beta split_chunks_metadata)
  have l: "length ?cs = length ?ps"
    using c by (metis length_map)
  show ?thesis
    using assms c m l
    by (auto simp: document_upload_page_def embed_documents_in_pinecone_def add_texts_def
          Let_def split: prod.splits sum.splits option.splits if_splits)
qed

lemma demo_split_abc:
  "split_documents demo_text_libs [\<lparr>content = ascii ''abc'', metadata = m\<rparr>] =
     [\<lparr>content = ascii ''abc'', metadata = m, chunk_id = 1\<rparr>]"
  by (simp add: split_documents_def demo_text_libs_def preprocess_text_def CHUNK_SIZE_def
        CHUNK_OVERLAP_def ascii_def window_split_short)

lemma demo_split_salam:
  "split_documents demo_text_libs [\<lparr>content = ascii ''salam'', metadata = m\<rparr>] =
     [\<lparr>content = ascii ''salam'', metadata = m, chunk_id = 1\<rparr>]"
  by (simp add: split_documents_def demo_text_libs_def preprocess_text_def CHUNK_SIZE_def
        CHUNK_OVERLAP_def ascii_def window_split_short)

lemma length_join:
  "length (join sep xs) = sum_list (map length xs) + length sep * (length xs - 1)"
  by (induction sep xs rule: join.induct) simp_all

lemma length_join_chars: "t \<noteq> [] \<Longrightarrow> length (join [s] (map (\<lambda>c. [c]) t)) = 2 * length t - 1"
proof -
  assume "t \<noteq> []"
  then have "0 < length t" by simp
  moreover have "sum_list (map length (map (\<lambda>c. [c]) t)) = length t"
    by (induction t) simp_all
  ultimately show ?thesis
    by (simp add: length_join)
qed

subsection \<open>C1: no minimum length is applied\<close>

text \<open>
  C1 as stated fails: a document whose text is \<open>abc\<close> yields one chunk of three
  characters, which \<open>is_valid_doc\<close> rejects, and the upload hands exactly that chunk to
  \<^verbatim>\<open>add_texts\<close>.
\<close>

theorem short_chunk_is_indexed:
  "split_documents demo_text_libs [\<lparr>content = ascii ''abc'', metadata = demo_metadata\<rparr>] =
     [\<lparr>content = ascii ''abc'', metadata = demo_metadata, chunk_id = 1\<rparr>] \<and>
   length (ascii ''abc'') < 50 \<and>
   \<not> is_valid_doc \<lparr>content = ascii ''abc'', metadata = demo_metadata, chunk_id = 1\<rparr> \<and>
   upserts (snd (document_upload_page demo_text_libs demo_bm25 (ascii ''abc'')
       (ascii ''a.docx'') (ascii ''news'') (ascii ''2024'') empty_world)) =
     [(INDEX_NAME, [ascii ''abc''], [ascii ''abc''], [demo_metadata])]"
  by (simp add: demo_split_abc document_upload_page_def embed_documents_in_pinecone_def
        add_texts_def demo_bm25_def empty_world_def demo_metadata_def is_valid_doc_def
        strip_def isspace_def Let_def)
     (simp add: ascii_def)

text \<open>
  C1 (amended): \<open>split_documents\<close> discards nothing. The contents of the chunks it
  returns are, in order, the normalised pieces the splitter returns for the documents,
  one chunk per piece whatever its length; and when the upload of a document succeeds,
  the number of chunks reported is the number of pieces and all of them, with the
  metadata of the document, are the texts of the one \<^verbatim>\<open>add_texts\<close> call.
\<close>

theorem split_documents_keeps_every_piece:
  "map content (split_documents L docs) = map (preprocess_text L) (pieces_of L docs) \<and>
   (document_upload_page L B t n f sf w = ((k, None), w') \<longrightarrow>
      k = length (split_text L CHUNK_SIZE CHUNK_OVERLAP t) \<and>
      (\<exists>enc. upserts w' = upserts w @
         [(INDEX_NAME, enc, map (preprocess_text L) (split_text L CHUNK_SIZE CHUNK_OVERLAP t),
           replicate k \<lparr>file_name = n, category = f, year = sf\<rparr>)]))"
  using upload_upserts [of L B t n f sf w k w'] split_docs_from_content [of L docs 1]
  by (simp add: split_documents_def)

theorem split_documents_keeps_every_piece_witness:
  "fst (document_upload_page demo_text_libs demo_bm25 (ascii ''salam'') (ascii ''a.docx'')
          (ascii ''news'') (ascii ''2024'') empty_world) = (1, None) \<and>
   map content (split_documents demo_text_libs
       [\<lparr>content = ascii ''salam'', metadata = demo_metadata\<rparr>]) = [ascii ''salam''] \<and>
   (\<exists>enc. upserts (snd (document_upload_page demo_text_libs demo_bm25 (ascii ''salam'')
          (ascii ''a.docx'') (ascii ''news'') (ascii ''2024'') empty_world)) =
      [(INDEX_NAME, enc, [ascii ''salam''], [demo_metadata])])"
proof -
  let ?r = "document_upload_page demo_text_libs demo_bm25 (ascii ''salam'') (ascii ''a.docx'')
          (ascii ''news'') (ascii ''2024'') empty_world"
  let ?d = "\<lparr>content = ascii ''salam'', metadata = demo_metadata\<rparr>"
  have f: "fst ?r = (1, None)"
    by (simp add: document_upload_page_def embed_documents_in_pinecone_def add_texts_def
          demo_bm25_def empty_world_def demo_split_salam Let_def)
  then have h: "?r = ((1, None), snd ?r)"
    by (metis prod.collapse)
  have p: "split_text demo_text_libs CHUNK_SIZE CHUNK_OVERLAP (ascii ''salam'') = [ascii ''salam'']"
    by (simp add: demo_text_libs_def window_split_short ascii_def CHUNK_SIZE_def)
  have q: "preprocess_text demo_text_libs (ascii ''salam'') = ascii ''salam''"
    by (simp add: preprocess_text_def demo_text_libs_def)
  show ?thesis
    using split_documents_keeps_every_piece [of demo_text_libs "[?d]" demo_bm25
        "ascii ''salam''" "ascii ''a.docx''" "ascii ''news''" "ascii ''2024''" empty_world 1 "snd ?r"]
      h f
    by (simp add: p q demo_metadata_def empty_world_def)
qed

subsection \<open>C2: the bound holds before normalisation\<close>

text \<open>
  C2 as stated fails: the chunks are normalised after the split, and joining the tokens
  with spaces can lengthen a piece. A document of 1200 characters, \<open>a.\<close> repeated 600
  times, is one piece; each of its characters is a token, and the content of its chunk
  has 2399 characters.
\<close>

theorem normalization_lengthens_chunk:
  "map (\<lambda>c. length (content c))
     (split_documents demo_punct_libs
        [\<lparr>content = concat (replicate 600 (ascii ''a.'')), metadata = demo_metadata\<rparr>]) = [2399] \<and>
   length (concat (replicate 600 (ascii ''a.''))) = 1200 \<and> CHUNK_SIZE < 2399"
proof -
  let ?t = "concat (replicate 600 (ascii ''a.''))"
  have l: "length ?t = 1200"
    by (simp add: length_concat ascii_def sum_list_replicate)
  then have ne: "?t \<noteq> []" by auto
  have p: "window_split CHUNK_SIZE CHUNK_OVERLAP ?t = [?t]"
    using window_split_short [OF ne, of CHUNK_SIZE CHUNK_OVERLAP] l by (simp add: CHUNK_SIZE_def)
  have j: "length (join (ascii '' '') (map (\<lambda>c. [c]) ?t)) = 2399"
    using length_join_chars [OF ne, of 32] l by (simp add: ascii_def)
  have s: "split_text demo_punct_libs CHUNK_SIZE CHUNK_OVERLAP ?t = [?t]"
    using p by (simp add: demo_punct_libs_def)
  have "map (\<lambda>c. length (content c)) (split_documents demo_punct_libs
          [\<lparr>content = ?t, metadata = demo_metadata\<rparr>]) =
        map length (map content (split_documents demo_punct_libs
          [\<lparr>content = ?t, metadata = demo_metadata\<rparr>]))"
    by (simp add: o_def)
  also have "\<dots> = [length (preprocess_text demo_punct_libs ?t)]"
    by (simp add: split_documents_content s)
  also have "\<dots> = [2399]"
    using j by (simp add: preprocess_text_def demo_punct_libs_def)
  finally show ?thesis
    using l by (simp add: CHUNK_SIZE_def)
qed

lemma chunk_from_piece:
  assumes "c \<in> set (split_documents L docs)"
  shows "\<exists>p \<in> set (pieces_of L docs). content c = preprocess_text L p"
proof -
  from assms have "content c \<in> set (map content (split_documents L docs))"
    by simp
  then have "content c \<in> set (map (preprocess_text L) (pieces_of L docs))"
    by (simp only: split_documents_content)
  then show ?thesis by auto
qed

lemma demo_window_bound:
  "\<forall>t. \<forall>p \<in> set (split_text demo_text_libs CHUNK_SIZE CHUNK_OVERLAP t). length p \<le> CHUNK_SIZE"
  using window_split_bound [of CHUNK_OVERLAP CHUNK_SIZE]
  by (simp add: demo_text_libs_def CHUNK_SIZE_def CHUNK_OVERLAP_def)

text \<open>
  C2 (amended): with a splitter whose pieces have at most \<open>CHUNK_SIZE\<close> (1200)
  characters, the contents of the chunks of \<open>split_documents\<close> are, in order, the
  normalisations of the pieces the splitter cuts from the documents, and each of these
  pieces of source text has at most 1200 characters: the content of every chunk is the
  normalisation of such a piece. The contents themselves have at most 1200 characters
  when normalisation never lengthens a text.
\<close>

theorem chunk_source_bounded:
  assumes "\<forall>t. \<forall>p \<in> set (split_text L CHUNK_SIZE CHUNK_OVERLAP t). length p \<le> CHUNK_SIZE"
  shows "map content (split_documents L docs) = map (preprocess_text L) (pieces_of L docs) \<and>
         (\<forall>p \<in> set (pieces_of L docs). length p \<le> 1200) \<and>
         (\<forall>c \<in> set (split_documents L docs).
            \<exists>p \<in> set (pieces_of L docs). content c = preprocess_text L p \<and> length p \<le> 1200) \<and>
         ((\<forall>p. length (preprocess_text L p) \<le> length p) \<longrightarrow>
            (\<forall>c \<in> set (split_documents L docs). length (content c) \<le> 1200))"
proof -
  have b: "\<forall>p \<in> set (pieces_of L docs). length p \<le> 1200"
    using assms by (auto simp: CHUNK_SIZE_def)
  have e: "\<forall>c \<in> set (split_documents L docs).
            \<exists>p \<in> set (pieces_of L docs). content c = preprocess_text L p \<and> length p \<le> 1200"
    using chunk_from_piece [of _ L docs] b by blast
  have "\<forall>c \<in> set (split_documents L docs). length (content c) \<le> 1200"
    if n: "\<forall>p. length (preprocess_text L p) \<le> length p"
  proof
    fix c assume "c \<in> set (split_documents L docs)"
    with e obtain p where "content c = preprocess_text L p" "length p \<le> 1200" by blast
    with n show "length (content c) \<le> 1200"
      using le_trans by metis
  qed
  with b e show ?thesis
    by (simp add: split_documents_content)
qed

theorem chunk_source_bounded_witness:
  "(\<forall>p. length (preprocess_text demo_text_libs p) \<le> length p) \<and>
   split_documents demo_text_libs [\<lparr>content = ascii ''salam'', metadata = demo_metadata\<rparr>] =
     [\<lparr>content = ascii ''salam'', metadata = demo_metadata, chunk_id = 1\<rparr>] \<and>
   pieces_of demo_text_libs [\<lparr>content = ascii ''salam'', metadata = demo_metadata\<rparr>] =
     [ascii ''salam''] \<and>
   preprocess_text demo_text_libs (ascii ''salam'') = ascii ''salam'' \<and>
   length (ascii ''salam'') \<le> 1200"
proof -
  let ?docs = "[\<lparr>content = ascii ''salam'', metadata = demo_metadata\<rparr>]"
  have i: "\<And>p. preprocess_text demo_text_libs p = p"
    by (simp add: preprocess_text_def demo_text_libs_def)
  have p: "split_text demo_text_libs CHUNK_SIZE CHUNK_OVERLAP (ascii ''salam'') = [ascii ''salam'']"
    by (simp add: demo_text_libs_def window_split_short ascii_def CHUNK_SIZE_def)
  show ?thesis
    using chunk_source_bounded [OF demo_window_bound, of ?docs] demo_window_bound
    by (simp add: i p demo_split_salam)
qed

subsection \<open>C3: the scenario of 2600 characters\<close>





section \<open>The sparse encoder\<close>

lemma embed_persisted:
  assumes "bm25_file w = Some b" and "bm25_load B b = Some enc"
  shows "\<exists>w'. embed_documents_in_pinecone B docs name w =
           (Inr \<lparr>vs_alpha = 1 / 2, vs_sparse_encoder = enc, vs_index = name, vs_top_k = 200\<rparr>, w') \<and>
         bm25_file w' = Some b \<and> fit_log w' = fit_log w \<and>
         upserts w' = upserts w @ [(name, enc, map content docs, map metadata docs)]"
  using assms
  by (simp add: embed_documents_in_pinecone_def add_texts_def Let_def)

lemma init_persisted:
  assumes "bm25_file w = Some b" and "bm25_load B b = Some enc"
  shows "initialize_chatbot B alpha top_k w =
           (\<lparr>vs_alpha = alpha, vs_sparse_encoder = enc, vs_index = INDEX_NAME, vs_top_k = top_k\<rparr>, w)"
  using assms
  by (simp add: initialize_chatbot_def)

lemma embed_absent:
  assumes "bm25_file w = None"
  shows "fit_log (snd (embed_documents_in_pinecone B docs name w)) = fit_log w @ [map content docs] \<and>
         bm25_file (snd (embed_documents_in_pinecone B docs name w)) =
           Some (bm25_dump B (bm25_fit B (map content docs)))"
  using assms
  by (simp add: embed_documents_in_pinecone_def add_texts_def Let_def)

lemma init_absent:
  assumes "bm25_file w = None"
  shows "fit_log (snd (initialize_chatbot B alpha top_k w)) = fit_log w @ [[ascii ''placeholder text'']] \<and>
         bm25_file (snd (initialize_chatbot B alpha top_k w)) =
           Some (bm25_dump B (bm25_fit B [ascii ''placeholder text'']))"
  using assms
  by (simp add: initialize_chatbot_def Let_def)

lemma run_persisted:
  assumes "bm25_load B b = Some enc"
  shows "bm25_file w = Some b \<Longrightarrow>
         bm25_file (run B rs w) = Some b \<and> fit_log (run B rs w) = fit_log w \<and>
         (\<exists>us. upserts (run B rs w) = upserts w @ us \<and> (\<forall>u \<in> set us. fst (snd u) = enc))"
proof (induction rs arbitrary: w)
  case Nil
  then show ?case by simp
next
  case (Cons r rs)
  show ?case
  proof (cases r)
    case (Ingest docs name)
    from embed_persisted [OF Cons.prems assms, of docs name] obtain w' where
      w': "snd (embed_documents_in_pinecone B docs name w) = w'" "bm25_file w' = Some b"
        "fit_log w' = fit_log w"
        "upserts w' = upserts w @ [(name, enc, map content docs, map metadata docs)]"
      by auto
    from Cons.IH [OF w'(2)] obtain us where
      "bm25_file (run B rs w') = Some b" "fit_log (run B rs w') = fit_log w'"
      "upserts (run B rs w') = upserts w' @ us" "\<forall>u \<in> set us. fst (snd u) = enc"
      by blast
    with w' Ingest show ?thesis
      by (intro conjI exI [of _ "(name, enc, map content docs, map metadata docs) # us"]) simp_all
  next
    case (InitChatbot alpha top_k)
    with Cons.IH [OF Cons.prems] init_persisted [OF Cons.prems assms, of alpha top_k]
    show ?thesis by simp
  qed
qed

lemma run_fits_once:
  assumes rt: "\<And>e. bm25_load B (bm25_dump B e) = Some e" and "bm25_file w = None"
  shows "length (fit_log (run B rs w)) \<le> length (fit_log w) + 1"
proof (cases rs)
  case Nil
  then show ?thesis by simp
next
  case (Cons r rs')
  show ?thesis
  proof (cases r)
    case (Ingest docs name)
    let ?w = "snd (embed_documents_in_pinecone B docs name w)"
    from embed_absent [OF assms(2), of B docs name]
    have f: "fit_log ?w = fit_log w @ [map content docs]"
      and b: "bm25_file ?w = Some (bm25_dump B (bm25_fit B (map content docs)))" by auto
    from run_persisted [OF rt b, of rs'] have "fit_log (run B rs' ?w) = fit_log ?w" by simp
    with f Cons Ingest show ?thesis by simp
  next
    case (InitChatbot alpha top_k)
    let ?w = "snd (initialize_chatbot B alpha top_k w)"
    from init_absent [OF assms(2), of B alpha top_k]
    have f: "fit_log ?w = fit_log w @ [[ascii ''placeholder text'']]"
      and b: "bm25_file ?w = Some (bm25_dump B (bm25_fit B [ascii ''placeholder text'']))" by auto
    from run_persisted [OF rt b, of rs'] have "fit_log (run B rs' ?w) = fit_log ?w" by simp
    with f Cons InitChatbot show ?thesis by simp
  qed
qed

text \<open>
  A file that exists but does not load holds no encoder state: the ingestion fails
  with the error of the load and fits nothing, while the bare \<^verbatim>\<open>except\<close> of
  \<^verbatim>\<open>initialize_chatbot\<close> fits the placeholder corpus and overwrites the file.
\<close>

lemma unloadable_file:
  assumes "bm25_file w = Some b" and "bm25_load B b = None"
  shows "fst (embed_documents_in_pinecone B docs name w) = Inl LoadError \<and>
         fit_log (snd (embed_documents_in_pinecone B docs name w)) = fit_log w \<and>
         bm25_file (snd (embed_documents_in_pinecone B docs name w)) = Some b \<and>
         fit_log (snd (initialize_chatbot B alpha top_k w)) = fit_log w @ [[ascii ''placeholder text'']] \<and>
         bm25_file (snd (initialize_chatbot B alpha top_k w)) =
           Some (bm25_dump B (bm25_fit B [ascii ''placeholder text'']))"
  using assms
  by (simp add: embed_documents_in_pinecone_def initialize_chatbot_def Let_def)

subsection \<open>C4: the persisted encoder\<close>

text \<open>
  When the encoder file exists and loads, the ingestion and the initialisation of the
  chatbot both use the loaded encoder, call no fit and leave the file as it is; so
  after any sequence of ingestions and initialisations the file and the fits are
  unchanged and every \<^verbatim>\<open>add_texts\<close> of the sequence used that same encoder. When the
  file does not exist, the ingestion fits once on the contents of its chunks and the
  initialisation once on the placeholder corpus, and the fitted encoder is dumped to
  the file at once; with a library whose load returns what dump stored, any sequence
  of requests that starts without the file fits at most once.
\<close>

lemma loadable_encoder_is_never_refitted:
  "(bm25_file w = Some b \<and> bm25_load B b = Some enc \<longrightarrow>
      (\<exists>w'. embed_documents_in_pinecone B docs name w =
           (Inr \<lparr>vs_alpha = 1 / 2, vs_sparse_encoder = enc, vs_index = name, vs_top_k = 200\<rparr>, w') \<and>
         bm25_file w' = Some b \<and> fit_log w' = fit_log w \<and>
         upserts w' = upserts w @ [(name, enc, map content docs, map metadata docs)]) \<and>
      initialize_chatbot B alpha top_k w =
        (\<lparr>vs_alpha = alpha, vs_sparse_encoder = enc, vs_index = INDEX_NAME, vs_top_k = top_k\<rparr>, w) \<and>
      bm25_file (run B rs w) = Some b \<and> fit_log (run B rs w) = fit_log w \<and>
      (\<exists>us. upserts (run B rs w) = upserts w @ us \<and> (\<forall>u \<in> set us. fst (snd u) = enc))) \<and>
   (bm25_file w = None \<longrightarrow>
      fit_log (snd (embed_documents_in_pinecone B docs name w)) = fit_log w @ [map content docs] \<and>
      bm25_file (snd (embed_documents_in_pinecone B docs name w)) =
        Some (bm25_dump B (bm25_fit B (map content docs))) \<and>
      fit_log (snd (initialize_chatbot B alpha top_k w)) =
        fit_log w @ [[ascii ''placeholder text'']] \<and>
      bm25_file (snd (initialize_chatbot B alpha top_k w)) =
        Some (bm25_dump B (bm25_fit B [ascii ''placeholder text''])) \<and>
      ((\<forall>e. bm25_load B (bm25_dump B e) = Some e) \<longrightarrow>
         length (fit_log (run B rs w)) \<le> length (fit_log w) + 1))"
proof (intro conjI impI)
  assume a: "bm25_file w = Some b \<and> bm25_load B b = Some enc"
  then have f: "bm25_file w = Some b" and l: "bm25_load B b = Some enc" by simp_all
  show "\<exists>w'. embed_documents_in_pinecone B docs name w =
           (Inr \<lparr>vs_alpha = 1 / 2, vs_sparse_encoder = enc, vs_index = name, vs_top_k = 200\<rparr>, w') \<and>
         bm25_file w' = Some b \<and> fit_log w' = fit_log w \<and>
         upserts w' = upserts w @ [(name, enc, map content docs, map metadata docs)]"
    by (rule embed_persisted [OF f l])
  show "initialize_chatbot B alpha top_k w =
        (\<lparr>vs_alpha = alpha, vs_sparse_encoder = enc, vs_index = INDEX_NAME, vs_top_k = top_k\<rparr>, w)"
    by (rule init_persisted [OF f l])
  show "bm25_file (run B rs w) = Some b" "fit_log (run B rs w) = fit_log w"
    "\<exists>us. upserts (run B rs w) = upserts w @ us \<and> (\<forall>u \<in> set us. fst (snd u) = enc)"
    using run_persisted [OF l f, of rs] by simp_all
next
  assume n: "bm25_file w = None"
  show "fit_log (snd (embed_documents_in_pinecone B docs name w)) = fit_log w @ [map content docs]"
    "bm25_file (snd (embed_documents_in_pinecone B docs name w)) =
        Some (bm25_dump B (bm25_fit B (map content docs)))"
    using embed_absent [OF n, of B docs name] by simp_all
  show "fit_log (snd (initialize_chatbot B alpha top_k w)) =
        fit_log w @ [[ascii ''placeholder text'']]"
    "bm25_file (snd (initialize_chatbot B alpha top_k w)) =
        Some (bm25_dump B (bm25_fit B [ascii ''placeholder text'']))"
    using init_absent [OF n, of B alpha top_k] by simp_all
  assume "\<forall>e. bm25_load B (bm25_dump B e) = Some e"
  then show "length (fit_log (run B rs w)) \<le> length (fit_log w) + 1"
    using run_fits_once [OF _ n, of B rs] by simp
qed

lemma loadable_encoder_is_never_refitted_example:
  "bm25_file (empty_world\<lparr>bm25_file := Some [ascii ''khabar'']\<rparr>) = Some [ascii ''khabar''] \<and>
   bm25_load demo_bm25 [ascii ''khabar''] = Some [ascii ''khabar''] \<and>
   bm25_file (run demo_bm25 [Ingest [demo_chunk] INDEX_NAME, InitChatbot (3 / 10) 60]
      (empty_world\<lparr>bm25_file := Some [ascii ''khabar'']\<rparr>)) = Some [ascii ''khabar''] \<and>
   fit_log (run demo_bm25 [Ingest [demo_chunk] INDEX_NAME, InitChatbot (3 / 10) 60]
      (empty_world\<lparr>bm25_file := Some [ascii ''khabar'']\<rparr>)) = [] \<and>
   bm25_file empty_world = None \<and>
   (\<forall>e. bm25_load demo_bm25 (bm25_dump demo_bm25 e) = Some e) \<and>
   bm25_file (snd (embed_documents_in_pinecone demo_bm25 [demo_chunk] INDEX_NAME empty_world)) =
      Some [ascii ''salam''] \<and>
   length (fit_log (run demo_bm25 [InitChatbot (3 / 10) 60, Ingest [demo_chunk] INDEX_NAME]
      empty_world)) \<le> 1"
proof -
  let ?w = "empty_world\<lparr>bm25_file := Some [ascii ''khabar'']\<rparr>"
  have h1: "bm25_file ?w = Some [ascii ''khabar''] \<and>
      bm25_load demo_bm25 [ascii ''khabar''] = Some [ascii ''khabar'']"
    by (simp add: demo_bm25_def)
  have h2: "bm25_file empty_world = None"
    by (simp add: empty_world_def)
  have h3: "\<forall>e. bm25_load demo_bm25 (bm25_dump demo_bm25 e) = Some e"
    by (simp add: demo_bm25_def)
  have f0: "fit_log ?w = []" "fit_log empty_world = []"
    by (simp_all add: empty_world_def)
  have d: "bm25_dump demo_bm25 (bm25_fit demo_bm25 [content demo_chunk]) = [ascii ''salam'']"
    by (simp add: demo_bm25_def demo_chunk_def)
  let ?rs = "[Ingest [demo_chunk] INDEX_NAME, InitChatbot (3 / 10) 60]"
  let ?rs' = "[InitChatbot (3 / 10) 60, Ingest [demo_chunk] INDEX_NAME]"
  from loadable_encoder_is_never_refitted [of ?w "[ascii ''khabar'']" demo_bm25
        "[ascii ''khabar'']" "[demo_chunk]" INDEX_NAME "3 / 10" 60 ?rs] h1
  have A: "bm25_file (run demo_bm25 ?rs ?w) = Some [ascii ''khabar''] \<and>
      fit_log (run demo_bm25 ?rs ?w) = fit_log ?w"
    by blast
  from loadable_encoder_is_never_refitted [of empty_world _ demo_bm25 _ "[demo_chunk]" INDEX_NAME
        "3 / 10" 60 ?rs'] h2 h3
  have B: "bm25_file (snd (embed_documents_in_pinecone demo_bm25 [demo_chunk] INDEX_NAME
        empty_world)) = Some (bm25_dump demo_bm25 (bm25_fit demo_bm25 (map content [demo_chunk]))) \<and>
      length (fit_log (run demo_bm25 ?rs' empty_world)) \<le> length (fit_log empty_world) + 1"
    by blast
  show ?thesis
    using A B h1 h2 h3 by (simp add: f0 d del: run.simps)
qed

text \<open>
  C4 fails on the code where the claim speaks of a file that exists: the query
  initialisation does not test for the file but catches every failure of the load.
  With an encoder file that exists and does not load (here an empty file),
  \<^verbatim>\<open>initialize_chatbot\<close> calls fit on the placeholder corpus and overwrites the file,
  although its comment says "if file doesn't exist"; the ingestion, which tests
  \<^verbatim>\<open>os.path.exists\<close>, fits nothing there and fails with the error of the load.
\<close>

theorem existing_file_is_refitted:
  "bm25_file (empty_world\<lparr>bm25_file := Some []\<rparr>) = Some [] \<and>
   fit_log (empty_world\<lparr>bm25_file := Some []\<rparr>) = [] \<and>
   fit_log (snd (initialize_chatbot demo_strict_bm25 (3 / 10) 60
       (empty_world\<lparr>bm25_file := Some []\<rparr>))) = [[ascii ''placeholder text'']] \<and>
   bm25_file (snd (initialize_chatbot demo_strict_bm25 (3 / 10) 60
       (empty_world\<lparr>bm25_file := Some []\<rparr>))) = Some [ascii ''placeholder text''] \<and>
   fst (embed_documents_in_pinecone demo_strict_bm25 [demo_chunk] INDEX_NAME
       (empty_world\<lparr>bm25_file := Some []\<rparr>)) = Inl LoadError \<and>
   fit_log (snd (embed_documents_in_pinecone demo_strict_bm25 [demo_chunk] INDEX_NAME
       (empty_world\<lparr>bm25_file := Some []\<rparr>))) = [] \<and>
   bm25_file (snd (embed_documents_in_pinecone demo_strict_bm25 [demo_chunk] INDEX_NAME
       (empty_world\<lparr>bm25_file := Some []\<rparr>))) = Some []"
  by (simp add: initialize_chatbot_def embed_documents_in_pinecone_def demo_strict_bm25_def
        empty_world_def Let_def)

section \<open>Filters and selections\<close>

lemma extend_subfolders_concat:
  "extend_subfolders fd sel acc = acc @ concat (map (subfolders_of fd) sel)"
  by (induction sel arbitrary: acc) (simp_all split: option.splits)

subsection \<open>C5: the subfolder options\<close>

text \<open>
  C5 (amended): with the folder file in place, \<open>get_selected_subfolders\<close> returns the
  list that starts with \<open>ALL\<close> and continues with the subfolder lists of the selected
  folders that are keys of the first dictionary, concatenated in the order of the
  selection; as a set it is \<open>{ALL}\<close> united with the subfolders of the selected
  folders, and for the empty selection it is \<open>[ALL]\<close>. Nothing removes duplicates.
\<close>

theorem available_subfolders_list:
  assumes "folder_file w = Some (fd # rest)"
  shows "get_selected_subfolders sel w =
           Inr (ALL_sentinel # concat (map (subfolders_of fd) sel)) \<and>
         set (ALL_sentinel # concat (map (subfolders_of fd) sel)) =
           insert ALL_sentinel (\<Union>f \<in> set sel. set (subfolders_of fd f)) \<and>
         get_selected_subfolders [] w = Inr [ALL_sentinel]"
  using assms
  by (simp add: get_selected_subfolders_def extend_subfolders_concat)

lemma demo_folders_eval:
  "demo_folders (ascii ''news'') = Some [ascii ''2023'', ascii ''2024'']"
  "demo_folders (ascii ''reports'') = Some [ascii ''2024'', ascii ''2025'']"
  by (simp_all add: demo_folders_def ascii_def)

text \<open>
  C5 as stated fails on the duplicates: with the subfolders 2023, 2024 of one selected
  folder and 2024, 2025 of the other, the result lists 2024 twice.
\<close>

theorem duplicate_subfolders_kept:
  "get_selected_subfolders [ascii ''news'', ascii ''reports''] demo_folder_world =
     Inr [ALL_sentinel, ascii ''2023'', ascii ''2024'', ascii ''2024'', ascii ''2025''] \<and>
   \<not> distinct [ALL_sentinel, ascii ''2023'', ascii ''2024'', ascii ''2024'', ascii ''2025''] \<and>
   get_selected_subfolders [ascii ''news'', ascii ''reports''] demo_folder_world \<noteq>
     Inr [ALL_sentinel, ascii ''2023'', ascii ''2024'', ascii ''2025'']"
  by (simp add: get_selected_subfolders_def demo_folder_world_def empty_world_def
        demo_folders_eval)

theorem available_subfolders_list_witness:
  "folder_file demo_folder_world = Some [demo_folders] \<and>
   get_selected_subfolders [ascii ''news''] demo_folder_world =
     Inr [ALL_sentinel, ascii ''2023'', ascii ''2024''] \<and>
   get_selected_subfolders [] demo_folder_world = Inr [ALL_sentinel]"
proof -
  have h: "folder_file demo_folder_world = Some (demo_folders # [])"
    by (simp add: demo_folder_world_def empty_world_def)
  show ?thesis
    using available_subfolders_list [OF h, of "[ascii ''news'']"] h
    by (simp add: demo_folders_eval)
qed

lemma field_names_differ:
  "ascii ''category'' \<noteq> ascii ''year''" "ascii ''year'' \<noteq> ascii ''category''"
  by (simp_all add: ascii_def)

lemma filter_dict_category:
  "filter_dict cats subs (ascii ''category'') =
     (if cats = [] \<or> cats = [ALL_sentinel] then None else Some cats)"
  by (auto simp: filter_dict_def Let_def field_names_differ)

lemma filter_dict_year:
  "filter_dict cats subs (ascii ''year'') =
     (if subs = [] \<or> subs = [ALL_sentinel] then None else Some subs)"
  by (auto simp: filter_dict_def Let_def field_names_differ)

lemma filter_dict_dom: "dom (filter_dict cats subs) \<subseteq> {ascii ''category'', ascii ''year''}"
  by (auto simp: filter_dict_def Let_def split: if_splits)

subsection \<open>C7: what the filter constrains\<close>

text \<open>
  C7: the filter has no entry for the category field when the category selection is
  empty or is \<open>[ALL]\<close>, and otherwise restricts it to the selected list; the same for
  the sub-category selection and the year field; it constrains no other field. So a
  chunk passes on the category field exactly when the selection is empty, is \<open>[ALL]\<close>
  or contains its category, and on the year field likewise.
\<close>

theorem filter_dict_constraints:
  "filter_dict cats subs (ascii ''category'') =
     (if cats = [] \<or> cats = [ALL_sentinel] then None else Some cats) \<and>
   filter_dict cats subs (ascii ''year'') =
     (if subs = [] \<or> subs = [ALL_sentinel] then None else Some subs) \<and>
   dom (filter_dict cats subs) \<subseteq> {ascii ''category'', ascii ''year''} \<and>
   passes_field (filter_dict cats subs) m (ascii ''category'') =
     (cats = [] \<or> cats = [ALL_sentinel] \<or> category m \<in> set cats) \<and>
   passes_field (filter_dict cats subs) m (ascii ''year'') =
     (subs = [] \<or> subs = [ALL_sentinel] \<or> year m \<in> set subs)"
  using field_names_differ
  by (simp add: filter_dict_category filter_dict_year filter_dict_dom passes_field_def
        metadata_get_def)
     (simp add: ascii_def)

theorem filter_dict_constraints_witness:
  "filter_dict [ascii ''news''] [ALL_sentinel] (ascii ''category'') = Some [ascii ''news''] \<and>
   filter_dict [ascii ''news''] [ALL_sentinel] (ascii ''year'') = None \<and>
   filter_dict [] [ascii ''2024''] (ascii ''category'') = None \<and>
   filter_dict [] [ascii ''2024''] (ascii ''year'') = Some [ascii ''2024''] \<and>
   passes_field (filter_dict [ascii ''news''] [ALL_sentinel]) demo_metadata (ascii ''category'') \<and>
   \<not> passes_field (filter_dict [ascii ''reports''] [ALL_sentinel]) demo_metadata (ascii ''category'')"
proof -
  have a: "[ascii ''news''] \<noteq> [ALL_sentinel]" "[ascii ''2024''] \<noteq> [ALL_sentinel]"
    "[ascii ''reports''] \<noteq> [ALL_sentinel]" "ascii ''news'' \<noteq> ascii ''reports''"
    by (simp_all add: ALL_sentinel_def ascii_def)
  show ?thesis
    using filter_dict_constraints [of "[ascii ''news'']" "[ALL_sentinel]" demo_metadata]
      filter_dict_constraints [of "[]" "[ascii ''2024'']" demo_metadata]
      filter_dict_constraints [of "[ascii ''reports'']" "[ALL_sentinel]" demo_metadata] a
    by (simp add: demo_metadata_def)
qed

subsection \<open>C10: ALL next to another value\<close>

text \<open>
  C10: a selection that contains \<open>ALL\<close> and at least one other value is neither
  empty nor \<open>[ALL]\<close>, so the filter restricts the field (category or year) to the
  selected list as it is, the string \<open>ALL\<close> included: a chunk passes exactly when its
  value is in that list.
\<close>

theorem all_with_another_value_constrains:
  assumes "ALL_sentinel \<in> set sel" and "v \<in> set sel" and "v \<noteq> ALL_sentinel"
  shows "filter_dict sel subs (ascii ''category'') = Some sel \<and>
         filter_dict cats sel (ascii ''year'') = Some sel \<and>
         passes_field (filter_dict sel subs) m (ascii ''category'') = (category m \<in> set sel) \<and>
         passes_field (filter_dict cats sel) m (ascii ''year'') = (year m \<in> set sel)"
proof -
  from assms have "sel \<noteq> []" "sel \<noteq> [ALL_sentinel]" by auto
  then show ?thesis
    using field_names_differ
    by (simp add: filter_dict_category filter_dict_year passes_field_def metadata_get_def)
       (simp add: ascii_def)
qed

theorem all_with_another_value_constrains_witness:
  "ALL_sentinel \<in> set [ALL_sentinel, ascii ''2023''] \<and>
   ascii ''2023'' \<in> set [ALL_sentinel, ascii ''2023''] \<and> ascii ''2023'' \<noteq> ALL_sentinel \<and>
   filter_dict [] [ALL_sentinel, ascii ''2023''] (ascii ''year'') =
     Some [ALL_sentinel, ascii ''2023''] \<and>
   \<not> passes_field (filter_dict [] [ALL_sentinel, ascii ''2023'']) demo_metadata (ascii ''year'')"
proof -
  have a: "ALL_sentinel \<in> set [ALL_sentinel, ascii ''2023'']"
    "ascii ''2023'' \<in> set [ALL_sentinel, ascii ''2023'']" by simp_all
  have b: "ascii ''2023'' \<noteq> ALL_sentinel" "ascii ''2024'' \<noteq> ALL_sentinel"
    "ascii ''2024'' \<noteq> ascii ''2023''"
    by (simp_all add: ALL_sentinel_def ascii_def)
  show ?thesis
    using all_with_another_value_constrains [OF a b(1), where cats = "[]" and m = demo_metadata] a b
    by (simp add: demo_metadata_def)
qed

section \<open>The chatbot page\<close>

lemma initialize_keeps:
  "folder_file (snd (initialize_chatbot B a k w)) = folder_file w"
  "retrieval_calls (snd (initialize_chatbot B a k w)) = retrieval_calls w"
  "llm_calls (snd (initialize_chatbot B a k w)) = llm_calls w"
  by (simp_all add: initialize_chatbot_def Let_def split: option.splits)

lemma session_store_keeps:
  "folder_file (snd (session_store B s w)) = folder_file w"
  "retrieval_calls (snd (session_store B s w)) = retrieval_calls w"
  "llm_calls (snd (session_store B s w)) = llm_calls w"
  by (simp_all add: initialize_keeps split: option.splits)

lemma subfolders_defined:
  "folder_file w = Some (fd # rest) \<Longrightarrow> \<exists>xs. get_selected_subfolders sel w = Inr xs"
  by (simp add: get_selected_subfolders_def)

lemma page_rejects:
  assumes "folder_file w = Some (fd # rest)" and "ui_submit u"
    and "ui_main_query u = [] \<or> (ui_categories u = [] \<and> ui_sub_categories u = [])"
  shows "chatbot_page B S u s w =
           Inr (if ui_main_query u = [] then WarnQuestion else WarnSelection,
                s\<lparr>ss_vectorstore := Some (fst (session_store B s w))\<rparr>,
                snd (session_store B s w))"
proof -
  obtain xs where "get_selected_subfolders (ui_categories u) (snd (session_store B s w)) = Inr xs"
    using subfolders_defined [of "snd (session_store B s w)" fd rest] assms(1)
    by (auto simp: session_store_keeps)
  then show ?thesis
    using assms
    by (auto simp: chatbot_page_def Let_def split_beta)
qed

lemma page_proceeds:
  assumes "folder_file w = Some (fd # rest)" and "ui_submit u"
    and "ui_main_query u \<noteq> []" and "ui_categories u \<noteq> [] \<or> ui_sub_categories u \<noteq> []"
  shows "chatbot_page B S u s w =
     (let (vs, w1) = session_store B s w;
          f = filter_dict (ui_categories u) (ui_sub_categories u);
          w2 = w1\<lparr>retrieval_calls := retrieval_calls w1 @ [(ui_main_query u, f)]\<rparr>;
          s1 = s\<lparr>ss_vectorstore := Some vs\<rparr>
      in case get_relevant_documents S vs (ui_main_query u) f of
           Inl e \<Rightarrow> Inr (QueryError e, s1, w2)
         | Inr docs \<Rightarrow>
             (let inputs = \<lparr>ctx = docs, main_question = ui_main_query u,
                             additional_note = ui_additional_note u\<rparr>;
                  w3 = w2\<lparr>llm_calls := llm_calls w2 @ [(ui_selected_model u, inputs)]\<rparr>
              in case llm S (ui_selected_model u) inputs of
                   Inl e \<Rightarrow> Inr (QueryError e, s1, w3)
                 | Inr response \<Rightarrow> Inr (Response response, s1, w3)))"
proof -
  obtain xs where "get_selected_subfolders (ui_categories u) (snd (session_store B s w)) = Inr xs"
    using subfolders_defined [of "snd (session_store B s w)" fd rest] assms(1)
    by (auto simp: session_store_keeps)
  then show ?thesis
    using assms
    by (auto simp: chatbot_page_def create_chatbot_retrieval_qa_def filtered_retriever_def
          debug_print_context_def Let_def split_beta split: sum.splits)
qed

subsection \<open>C6: validation before any call\<close>

text \<open>
  C6: when the button is pressed (the folder file in place), an empty question, or an
  empty category selection together with an empty sub-category selection, ends the
  page with the warning for the question or for the selection, and neither the
  retriever (which embeds and encodes the question) nor the language model has been
  called; otherwise the retriever is called with the question and the filter of the
  selections, and the page shows the response or the error of the pipeline.
\<close>

theorem validation_precedes_the_pipeline:
  assumes "folder_file w = Some (fd # rest)" and "ui_submit u"
  shows "(ui_main_query u = [] \<or> (ui_categories u = [] \<and> ui_sub_categories u = []) \<longrightarrow>
           (\<exists>s' w'. chatbot_page B S u s w =
                Inr (if ui_main_query u = [] then WarnQuestion else WarnSelection, s', w') \<and>
              retrieval_calls w' = retrieval_calls w \<and> llm_calls w' = llm_calls w)) \<and>
         (ui_main_query u \<noteq> [] \<and> (ui_categories u \<noteq> [] \<or> ui_sub_categories u \<noteq> []) \<longrightarrow>
           (\<exists>r s' w'. chatbot_page B S u s w = Inr (r, s', w') \<and>
              ((\<exists>response. r = Response response) \<or> (\<exists>e. r = QueryError e)) \<and>
              retrieval_calls w' = retrieval_calls w @
                [(ui_main_query u, filter_dict (ui_categories u) (ui_sub_categories u))]))"
proof (intro conjI impI)
  assume "ui_main_query u = [] \<or> (ui_categories u = [] \<and> ui_sub_categories u = [])"
  from page_rejects [OF assms this, of B S s]
  show "\<exists>s' w'. chatbot_page B S u s w =
                Inr (if ui_main_query u = [] then WarnQuestion else WarnSelection, s', w') \<and>
              retrieval_calls w' = retrieval_calls w \<and> llm_calls w' = llm_calls w"
    by (simp add: session_store_keeps)
next
  assume a: "ui_main_query u \<noteq> [] \<and> (ui_categories u \<noteq> [] \<or> ui_sub_categories u \<noteq> [])"
  then have q: "ui_main_query u \<noteq> []"
    and c: "ui_categories u \<noteq> [] \<or> ui_sub_categories u \<noteq> []" by simp_all
  show "\<exists>r s' w'. chatbot_page B S u s w = Inr (r, s', w') \<and>
              ((\<exists>response. r = Response response) \<or> (\<exists>e. r = QueryError e)) \<and>
              retrieval_calls w' = retrieval_calls w @
                [(ui_main_query u, filter_dict (ui_categories u) (ui_sub_categories u))]"
    using page_proceeds [OF assms q c, of B S s] session_store_keeps(2) [of B s w]
    by (auto simp: Let_def split_beta split: sum.splits)
qed

lemma why_nonempty: "ascii ''why?'' \<noteq> []"
  by (simp add: ascii_def)

lemma demo_ui_facts:
  "ui_submit demo_ui" "ui_main_query demo_ui = ascii ''why?''" "ui_main_query demo_ui \<noteq> []"
  "ui_categories demo_ui = [ascii ''news'']" "ui_sub_categories demo_ui = []"
  "ui_selected_model demo_ui = ascii ''gpt-4o''" "ui_additional_note demo_ui = []"
  by (simp_all add: demo_ui_def ascii_def)

lemma demo_world_facts:
  "folder_file demo_folder_world = Some (demo_folders # [])"
  "retrieval_calls demo_folder_world = []" "llm_calls demo_folder_world = []"
  by (simp_all add: demo_folder_world_def empty_world_def)

theorem validation_precedes_the_pipeline_witness:
  "folder_file demo_folder_world = Some [demo_folders] \<and> ui_submit demo_ui \<and>
   ui_main_query demo_ui \<noteq> [] \<and> ui_categories demo_ui \<noteq> [] \<and>
   (\<exists>r s' w'. chatbot_page demo_bm25 (demo_services []) demo_ui demo_session demo_folder_world =
        Inr (r, s', w') \<and>
      retrieval_calls w' = [(ascii ''why?'', filter_dict [ascii ''news''] [])]) \<and>
   ui_main_query (demo_ui\<lparr>ui_main_query := []\<rparr>) = [] \<and>
   (\<exists>s' w'. chatbot_page demo_bm25 (demo_services []) (demo_ui\<lparr>ui_main_query := []\<rparr>)
        demo_session demo_folder_world = Inr (WarnQuestion, s', w') \<and>
      retrieval_calls w' = [] \<and> llm_calls w' = [])"
proof -
  have s: "ui_submit (demo_ui\<lparr>ui_main_query := []\<rparr>)"
    by (simp add: demo_ui_facts)
  have n: "ascii ''why?'' \<noteq> []"
    by (simp add: ascii_def)
  from validation_precedes_the_pipeline [OF demo_world_facts(1) demo_ui_facts(1),
      of demo_bm25 "demo_services []" demo_session]
  have a: "\<exists>r s' w'. chatbot_page demo_bm25 (demo_services []) demo_ui demo_session
        demo_folder_world = Inr (r, s', w') \<and>
      retrieval_calls w' = [(ascii ''why?'', filter_dict [ascii ''news''] [])]"
    by (simp add: demo_ui_facts demo_world_facts n) blast
  from validation_precedes_the_pipeline [OF demo_world_facts(1) s,
      of demo_bm25 "demo_services []" demo_session]
  have b: "\<exists>s' w'. chatbot_page demo_bm25 (demo_services []) (demo_ui\<lparr>ui_main_query := []\<rparr>)
        demo_session demo_folder_world = Inr (WarnQuestion, s', w') \<and>
      retrieval_calls w' = [] \<and> llm_calls w' = []"
    by (simp add: demo_world_facts)
  show ?thesis
    using a b by (simp add: demo_ui_facts demo_world_facts n)
qed

subsection \<open>C8: the question is passed on as typed\<close>

lemma demo_page_answers:
  "\<exists>s' w'. chatbot_page demo_bm25 (demo_services docs) demo_ui demo_session demo_folder_world =
       Inr (Response (ascii ''ok''), s', w') \<and>
     map fst (retrieval_calls w') = [ascii ''why?''] \<and>
     llm_calls w' = [(ascii ''gpt-4o'',
        \<lparr>ctx = docs, main_question = ascii ''why?'', additional_note = []\<rparr>)]"
proof -
  have c: "ui_categories demo_ui \<noteq> [] \<or> ui_sub_categories demo_ui \<noteq> []"
    by (simp add: demo_ui_facts)
  show ?thesis
    using page_proceeds [OF demo_world_facts(1) demo_ui_facts(1) demo_ui_facts(3) c,
        of demo_bm25 "demo_services docs" demo_session]
      session_store_keeps(2,3) [of demo_bm25 demo_session demo_folder_world]
    by (simp add: Let_def split_beta demo_services_def demo_ui_facts demo_world_facts)
qed

text \<open>
  C8 fails on the code: the chain hands the question to the retriever as it was typed;
  \<open>preprocess_text\<close>, which the ingestion applies to every chunk, is not applied on
  the query path. For the question \<open>why?\<close> the retriever is called with \<open>why?\<close>,
  while the normalisation applied at indexing time gives \<open>why ?\<close>.
\<close>

theorem question_is_not_normalized:
  "(\<exists>r s' w'. chatbot_page demo_bm25 (demo_services []) demo_ui demo_session demo_folder_world =
        Inr (r, s', w') \<and> map fst (retrieval_calls w') = [ascii ''why?'']) \<and>
   preprocess_text demo_question_libs (ascii ''why?'') = ascii ''why ?'' \<and>
   ascii ''why?'' \<noteq> ascii ''why ?''"
proof -
  have "preprocess_text demo_question_libs (ascii ''why?'') = ascii ''why ?''"
    by (simp add: preprocess_text_def demo_question_libs_def) (simp add: ascii_def)
  moreover have "ascii ''why?'' \<noteq> ascii ''why ?''"
    by (simp add: ascii_def)
  moreover obtain s' w' where
    "chatbot_page demo_bm25 (demo_services []) demo_ui demo_session demo_folder_world =
       Inr (Response (ascii ''ok''), s', w')" "map fst (retrieval_calls w') = [ascii ''why?'']"
    using demo_page_answers [of "[]"] by auto
  ultimately show ?thesis
    by (intro conjI exI [of _ "Response (ascii ''ok'')"] exI [of _ s'] exI [of _ w']) simp_all
qed

subsection \<open>C9: the result is the generated text\<close>

text \<open>
  C9 (amended): for every successful query (the retriever returns documents and the
  model returns a text for the inputs built from them) the page shows exactly the
  generated text; the retrieved documents, with their file names, are part of the
  inputs given to the model and of nothing that is returned.
\<close>

theorem answer_is_the_generated_text:
  assumes "folder_file w = Some (fd # rest)" and "ui_submit u" and "ui_main_query u \<noteq> []"
    and "ui_categories u \<noteq> [] \<or> ui_sub_categories u \<noteq> []"
    and "get_relevant_documents S (fst (session_store B s w)) (ui_main_query u)
           (filter_dict (ui_categories u) (ui_sub_categories u)) = Inr docs"
    and "llm S (ui_selected_model u)
           \<lparr>ctx = docs, main_question = ui_main_query u,
            additional_note = ui_additional_note u\<rparr> = Inr response"
  shows "\<exists>s' w'. chatbot_page B S u s w = Inr (Response response, s', w') \<and>
           llm_calls w' = llm_calls w @
             [(ui_selected_model u,
               \<lparr>ctx = docs, main_question = ui_main_query u,
                additional_note = ui_additional_note u\<rparr>)]"
  using page_proceeds [OF assms(1-4), of B S s] assms(5,6) session_store_keeps(3) [of B s w]
  by (simp add: Let_def split_beta)

theorem answer_is_the_generated_text_witness:
  "folder_file demo_folder_world = Some [demo_folders] \<and> ui_submit demo_ui \<and>
   ui_main_query demo_ui \<noteq> [] \<and> ui_categories demo_ui \<noteq> [] \<and>
   get_relevant_documents (demo_services [demo_document (ascii ''a.docx'')])
     (fst (session_store demo_bm25 demo_session demo_folder_world)) (ui_main_query demo_ui)
     (filter_dict (ui_categories demo_ui) (ui_sub_categories demo_ui)) =
     Inr [demo_document (ascii ''a.docx'')] \<and>
   llm (demo_services [demo_document (ascii ''a.docx'')]) (ui_selected_model demo_ui)
     \<lparr>ctx = [demo_document (ascii ''a.docx'')], main_question = ui_main_query demo_ui,
      additional_note = ui_additional_note demo_ui\<rparr> = Inr (ascii ''ok'') \<and>
   (\<exists>s' w'. chatbot_page demo_bm25 (demo_services [demo_document (ascii ''a.docx'')]) demo_ui
        demo_session demo_folder_world = Inr (Response (ascii ''ok''), s', w') \<and>
      llm_calls w' = [(ascii ''gpt-4o'',
        \<lparr>ctx = [demo_document (ascii ''a.docx'')], main_question = ascii ''why?'',
         additional_note = []\<rparr>)])"
proof -
  let ?S = "demo_services [demo_document (ascii ''a.docx'')]"
  have c: "ui_categories demo_ui \<noteq> [] \<or> ui_sub_categories demo_ui \<noteq> []"
    by (simp add: demo_ui_facts)
  have g: "get_relevant_documents ?S
     (fst (session_store demo_bm25 demo_session demo_folder_world)) (ui_main_query demo_ui)
     (filter_dict (ui_categories demo_ui) (ui_sub_categories demo_ui)) =
     Inr [demo_document (ascii ''a.docx'')]"
    by (simp add: demo_services_def)
  have l: "llm ?S (ui_selected_model demo_ui)
     \<lparr>ctx = [demo_document (ascii ''a.docx'')], main_question = ui_main_query demo_ui,
      additional_note = ui_additional_note demo_ui\<rparr> = Inr (ascii ''ok'')"
    by (simp add: demo_services_def)
  show ?thesis
    using answer_is_the_generated_text [OF demo_world_facts(1) demo_ui_facts(1)
        demo_ui_facts(3) c g l] g l
    by (simp add: demo_ui_facts demo_world_facts why_nonempty)
qed

text \<open>
  C9 as stated fails: two queries that differ only in the file name of the retrieved
  chunk (\<open>a.docx\<close>, \<open>b.docx\<close>) and whose generated text is the same give the same
  result, so the result does not hold the file names of the retrieved chunks.
\<close>

theorem answer_carries_no_file_names:
  "(\<exists>s' w'. chatbot_page demo_bm25 (demo_services [demo_document (ascii ''a.docx'')]) demo_ui
        demo_session demo_folder_world = Inr (Response (ascii ''ok''), s', w')) \<and>
   (\<exists>s' w'. chatbot_page demo_bm25 (demo_services [demo_document (ascii ''b.docx'')]) demo_ui
        demo_session demo_folder_world = Inr (Response (ascii ''ok''), s', w')) \<and>
   set (map (\<lambda>d. file_name (doc_metadata d)) [demo_document (ascii ''a.docx'')]) \<noteq>
   set (map (\<lambda>d. file_name (doc_metadata d)) [demo_document (ascii ''b.docx'')])"
proof -
  have "ascii ''a.docx'' \<noteq> ascii ''b.docx''"
    by (simp add: ascii_def)
  then show ?thesis
    using demo_page_answers [of "[demo_document (ascii ''a.docx'')]"]
      demo_page_answers [of "[demo_document (ascii ''b.docx'')]"]
    by (auto simp: demo_document_def)
qed

end
